theory Spec2Isabelle
  imports Complex_Main
begin

section \<open>Errors as values\<close>

text \<open>
  The Python exceptions the modelled functions can raise.  A function that can raise
  returns \<open>py_error + 'a\<close>, with \<open>Inl\<close> for the exception.

  Python floats are modelled as the real numbers: rounding, overflow of \<open>math.exp\<close>,
  infinities and NaN are outside this model.
\<close>

datatype py_error = ValueError | KeyError | ZeroDivisionError | OverflowError

definition py_sqrt :: "real \<Rightarrow> py_error + real" where
  \<comment> \<open>\<open>math.sqrt\<close>: ValueError on a negative argument.\<close>
  "py_sqrt x = (if x < 0 then Inl ValueError else Inr (sqrt x))"

definition py_div :: "real \<Rightarrow> real \<Rightarrow> py_error + real" where
  \<comment> \<open>float division: ZeroDivisionError on a zero divisor.\<close>
  "py_div a b = (if b = 0 then Inl ZeroDivisionError else Inr (a / b))"

section \<open>Trinomial lattice pricer\<close>

text \<open>The dictionary returned by \<open>trinomial_single_step\<close>; the keys \<open>n\<close>, \<open>dt\<close>,
  \<open>u\<close>, \<open>d\<close>, \<open>m\<close> carry the prefix \<open>step_\<close>.\<close>

record lattice_step =
  step_n :: int
  step_dt :: real
  step_u :: real
  step_d :: real
  step_m :: real
  p_u :: real
  p_m :: real
  p_d :: real
  discount_factor :: real
  price_up :: real
  price_mid :: real
  price_down :: real
  payoff_up :: real
  payoff_mid :: real
  payoff_down :: real
  option_value_at_root :: real

definition step_dt_of :: "real \<Rightarrow> int \<Rightarrow> real" where
  \<comment> \<open>\<open>dt = T / n if n else 0\<close>\<close>
  "step_dt_of T n = (if n \<noteq> 0 then T / real_of_int n else 0)"

definition probabilities :: "real \<Rightarrow> real \<Rightarrow> real \<times> real \<times> real" where
  \<comment> \<open>lines 217 to 223: the branch on \<open>abs(denominator) < 1e-14\<close>\<close>
  "probabilities numerator denominator =
     (if \<bar>denominator\<bar> < 1 / 10 ^ 14 then (1 / 3, 1 / 3, 1 / 3)
      else let frac = numerator / denominator;
               pu = 0.5 * frac\<^sup>2;
               pm = 1 - frac\<^sup>2;
               pd = 1 - pu - pm
           in (pu, pm, pd))"

definition payoff :: "string \<Rightarrow> real \<Rightarrow> real \<Rightarrow> real" where
  \<comment> \<open>lines 231 to 238: \<open>"CE"\<close> is the call, every other option type the put\<close>
  "payoff option_type price K =
     (if option_type = ''CE'' then max 0 (price - K) else max 0 (K - price))"

definition trinomial_single_step ::
  "real \<Rightarrow> real \<Rightarrow> real \<Rightarrow> real \<Rightarrow> real \<Rightarrow> real \<Rightarrow> int \<Rightarrow> string \<Rightarrow> py_error + lattice_step" where
  "trinomial_single_step S K r sigma T q n option_type =
     (let dt = step_dt_of T n in
      if dt \<le> 0 then
        Inr \<lparr>step_n = n, step_dt = 0, step_u = 1, step_d = 1, step_m = 1,
             p_u = 0, p_m = 0, p_d = 0, discount_factor = 1,
             price_up = S, price_mid = S, price_down = S,
             payoff_up = 0, payoff_mid = 0, payoff_down = 0,
             option_value_at_root = 0\<rparr>
      else
        case py_sqrt (2 * dt) of Inl e \<Rightarrow> Inl e | Inr rt \<Rightarrow>
        let u = exp (sigma * rt) in
        case py_div 1 u of Inl e \<Rightarrow> Inl e | Inr d \<Rightarrow>
        let m = 1;
            exp_rq = exp ((r - q) * dt);
            numerator = exp_rq - d;
            denominator = u - d;
            (pu, pm, pd) = probabilities numerator denominator;
            df = exp (- r * dt);
            pr_up = S * u;
            pr_mid = S * m;
            pr_down = S * d;
            pay_up = payoff option_type pr_up K;
            pay_mid = payoff option_type pr_mid K;
            pay_down = payoff option_type pr_down K;
            option_value_root = df * (pu * pay_up + pm * pay_mid + pd * pay_down)
        in Inr \<lparr>step_n = n, step_dt = dt, step_u = u, step_d = d, step_m = m,
                p_u = pu, p_m = pm, p_d = pd, discount_factor = df,
                price_up = pr_up, price_mid = pr_mid, price_down = pr_down,
                payoff_up = pay_up, payoff_mid = pay_mid, payoff_down = pay_down,
                option_value_at_root = option_value_root\<rparr>)"





section \<open>Step-schedule selector\<close>

definition determine_n_steps :: "real \<Rightarrow> real \<Rightarrow> bool \<Rightarrow> bool \<Rightarrow> int list" where
  "determine_n_steps IV T is_index is_atm =
     (if IV > 0.4 then [10, 20, 50, 100, 200, 400]
      else if IV > 0.2 then [10, 20, 50, 100, 200]
      else if IV > 0.1 then [4, 10, 20, 40, 100]
      else if T < 0.05 then [4, 10, 20, 40, 50]
      else if is_index \<and> is_atm then [10, 20, 50, 100, 200]
      else [4, 10, 20, 40])"

section \<open>Calendar dates\<close>

text \<open>
  Python's \<open>datetime.date\<close>: a year, a month and a day of the proleptic Gregorian
  calendar, with the day count of the \<open>datetime\<close> module (\<open>_is_leap\<close>,
  \<open>_days_in_month\<close>, \<open>_days_before_year\<close>, \<open>_days_before_month\<close>, \<open>_ymd2ord\<close>).
\<close>

datatype date = Date (year: int) (month: int) (day: int)

definition is_leap :: "int \<Rightarrow> bool" where
  "is_leap y = (y mod 4 = 0 \<and> (y mod 100 \<noteq> 0 \<or> y mod 400 = 0))"

definition DAYS_IN_MONTH :: "int list" where
  "DAYS_IN_MONTH = [31, 28, 31, 30, 31, 30, 31, 31, 30, 31, 30, 31]"

definition days_in_month :: "int \<Rightarrow> int \<Rightarrow> int" where
  "days_in_month y mo = (if mo = 2 \<and> is_leap y then 29 else DAYS_IN_MONTH ! nat (mo - 1))"

definition days_before_year :: "int \<Rightarrow> int" where
  "days_before_year y = (let y1 = y - 1 in y1 * 365 + y1 div 4 - y1 div 100 + y1 div 400)"

definition days_before_month :: "int \<Rightarrow> int \<Rightarrow> int" where
  "days_before_month y mo =
     sum_list (take (nat (mo - 1)) DAYS_IN_MONTH) + (if mo > 2 \<and> is_leap y then 1 else 0)"

definition toordinal :: "date \<Rightarrow> int" where
  \<comment> \<open>\<open>date.toordinal()\<close>: 1 January of year 1 is day 1\<close>
  "toordinal dt = days_before_year (year dt) + days_before_month (year dt) (month dt) + day dt"

definition MAXORDINAL :: int where
  \<comment> \<open>\<open>date.max.toordinal()\<close>, the ordinal of 31 December 9999\<close>
  "MAXORDINAL = 3652059"

definition valid_date :: "date \<Rightarrow> bool" where
  \<comment> \<open>the checks of the \<open>date\<close> constructor (\<open>_check_date_fields\<close>)\<close>
  "valid_date dt = (1 \<le> year dt \<and> year dt \<le> 9999 \<and> 1 \<le> month dt \<and> month dt \<le> 12
                    \<and> 1 \<le> day dt \<and> day dt \<le> days_in_month (year dt) (month dt))"

definition date_le :: "date \<Rightarrow> date \<Rightarrow> bool" where
  \<comment> \<open>\<open>d1 <= d2\<close> on dates: the order of the triples (year, month, day)\<close>
  "date_le d1 d2 = (year d1 < year d2
       \<or> (year d1 = year d2 \<and> (month d1 < month d2
              \<or> (month d1 = month d2 \<and> day d1 \<le> day d2))))"

definition weekday :: "int \<Rightarrow> int" where
  \<comment> \<open>\<open>date.weekday()\<close> of the date with the given ordinal: Monday is 0, Sunday 6\<close>
  "weekday ord = (ord + 6) mod 7"

section \<open>Parsing and printing dates\<close>

text \<open>
  \<open>datetime.strptime(s, "%d-%b-%Y")\<close> in the C locale.  The format compiles to the regular
  expression \<open>(3[0-1]|[1-2]\d|0[1-9]|[1-9]| [1-9])-(jan|...|dec)-(\d\d\d\d)\<close>, matched without
  regard to case against the whole string; the date is then built from the three fields.
  Every failure is a ValueError, here \<open>None\<close>.  Characters are the 256 of \<open>char\<close>; the
  decimal digits and letters beyond them that the regular expression also accepts are not
  modelled.
\<close>

definition is_digit :: "char \<Rightarrow> bool" where
  "is_digit c = (c \<in> set ''0123456789'')"

definition digit_val :: "char \<Rightarrow> int" where
  "digit_val c = of_char c - 48"

definition lower_char :: "char \<Rightarrow> char" where
  "lower_char c =
     (if c \<in> set ''ABCDEFGHIJKLMNOPQRSTUVWXYZ'' then char_of (of_char c + (32::nat)) else c)"

definition MONTH_ABBR :: "string list" where
  "MONTH_ABBR = [''jan'', ''feb'', ''mar'', ''apr'', ''may'', ''jun'',
                 ''jul'', ''aug'', ''sep'', ''oct'', ''nov'', ''dec'']"

fun index_of :: "'a \<Rightarrow> 'a list \<Rightarrow> int option" where
  "index_of x [] = None"
| "index_of x (y # ys) = (if x = y then Some 0 else map_option (\<lambda>i. i + 1) (index_of x ys))"

fun parse_day :: "string \<Rightarrow> int option" where
  "parse_day [a, b] =
     (if a = CHR ''3'' \<and> (b = CHR ''0'' \<or> b = CHR ''1'') then Some (30 + digit_val b)
      else if (a = CHR ''1'' \<or> a = CHR ''2'') \<and> is_digit b
        then Some (10 * digit_val a + digit_val b)
      else if (a = CHR ''0'' \<or> a = CHR '' '') \<and> is_digit b \<and> b \<noteq> CHR ''0''
        then Some (digit_val b)
      else None)"
| "parse_day [a] = (if is_digit a \<and> a \<noteq> CHR ''0'' then Some (digit_val a) else None)"
| "parse_day s = None"

definition parse_month :: "string \<Rightarrow> int option" where
  "parse_month s = map_option (\<lambda>i. i + 1) (index_of (map lower_char s) MONTH_ABBR)"

definition parse_year :: "string \<Rightarrow> int option" where
  "parse_year s =
     (if length s = 4 \<and> list_all is_digit s
      then Some (foldl (\<lambda>acc c. 10 * acc + digit_val c) 0 s) else None)"

definition strptime :: "string \<Rightarrow> date option" where
  "strptime s =
     (let ds = takeWhile (\<lambda>c. c \<noteq> CHR ''-'') s;
          rest = dropWhile (\<lambda>c. c \<noteq> CHR ''-'') s
      in case rest of
           [] \<Rightarrow> None
         | dash # after_day \<Rightarrow>
             (case drop 3 after_day of
                [] \<Rightarrow> None
              | sep # ys \<Rightarrow>
                  if sep \<noteq> CHR ''-'' then None
                  else
                    (case (parse_day ds, parse_month (take 3 after_day), parse_year ys) of
                       (Some d, Some mo, Some y) \<Rightarrow>
                         if valid_date (Date y mo d) then Some (Date y mo d) else None
                     | _ \<Rightarrow> None)))"

fun str_nat :: "nat \<Rightarrow> string" where
  \<comment> \<open>the decimal digits of a natural number\<close>
  "str_nat k = (if k < 10 then [char_of (48 + k)]
                else str_nat (k div 10) @ [char_of (48 + k mod 10)])"

declare str_nat.simps [simp del]

definition str_int :: "int \<Rightarrow> string" where
  \<comment> \<open>\<open>str(i)\<close>, as \<open>f"{i}"\<close> prints an integer\<close>
  "str_int i = (if i < 0 then CHR ''-'' # str_nat (nat (- i)) else str_nat (nat i))"

definition MONTH_NAMES :: "string list" where
  "MONTH_NAMES = [''Jan'', ''Feb'', ''Mar'', ''Apr'', ''May'', ''Jun'',
                  ''Jul'', ''Aug'', ''Sep'', ''Oct'', ''Nov'', ''Dec'']"

definition strftime :: "date \<Rightarrow> string" where
  \<comment> \<open>\<open>strftime("%d-%b-%Y")\<close>: the day on two digits, the month's abbreviation, the year\<close>
  "strftime dt =
     (if day dt < 10 then CHR ''0'' # str_int (day dt) else str_int (day dt))
     @ ''-'' @ MONTH_NAMES ! nat (month dt - 1) @ ''-'' @ str_int (year dt)"

section \<open>Trading calendar\<close>

definition HOLIDAYS_2025 :: "string list" where
  "HOLIDAYS_2025 =
     [''26-Feb-2025'', ''14-Mar-2025'', ''31-Mar-2025'', ''10-Apr-2025'', ''14-Apr-2025'',
      ''18-Apr-2025'', ''01-May-2025'', ''15-Aug-2025'', ''27-Aug-2025'', ''02-Oct-2025'',
      ''21-Oct-2025'', ''22-Oct-2025'', ''05-Nov-2025'', ''25-Dec-2025'']"


definition holiday_dates :: "int list" where
  \<comment> \<open>lines 107 to 113: the holidays that parse, each date held as its ordinal\<close>
  "holiday_dates = map toordinal (List.map_filter strptime HOLIDAYS_2025)"

text \<open>
  The \<open>while\<close> loop of \<open>count_trading_days_between\<close>.  The running date and the end date
  are held as their ordinals: \<open>curr_date += timedelta(days=1)\<close> is the date of ordinal
  \<open>toordinal + 1\<close>, and it raises OverflowError when that ordinal is not in
  \<open>1 .. MAXORDINAL\<close>.
\<close>

function count_loop :: "int list \<Rightarrow> int \<Rightarrow> int \<Rightarrow> int \<Rightarrow> py_error + int" where
  "count_loop holidays end_date curr_date day_count =
     (if curr_date \<le> end_date then
        let day_count' =
              (if weekday curr_date < 5 \<and> curr_date \<notin> set holidays
               then day_count + 1 else day_count)
        in if 0 < curr_date + 1 \<and> curr_date + 1 \<le> MAXORDINAL
           then count_loop holidays end_date (curr_date + 1) day_count'
           else Inl OverflowError
      else Inr day_count)"
  by pat_completeness auto
termination
  by (relation "measure (\<lambda>(holidays, end_date, curr_date, day_count).
        nat (end_date + 1 - curr_date))") auto

declare count_loop.simps [simp del]

definition count_trading_days_between :: "string \<Rightarrow> string \<Rightarrow> py_error + int" where
  "count_trading_days_between start_str end_str =
     (case (strptime start_str, strptime end_str) of
        (Some start_date, Some end_date) \<Rightarrow>
          if \<not> date_le start_date end_date then Inr 0
          else count_loop holiday_dates (toordinal end_date) (toordinal start_date) 0
      | _ \<Rightarrow> Inr 0)"

text \<open>
  \<open>calculate_time_to_expiry\<close> reads the clock (\<open>datetime.today()\<close>, the parameter
  \<open>today\<close>) and the module constant \<open>TOTAL_TRADING_DAYS_2025\<close> (the parameter
  \<open>total_trading_days\<close>, 247 in the program).
\<close>

definition calculate_time_to_expiry ::
  "int \<Rightarrow> date \<Rightarrow> string \<Rightarrow> py_error + (real \<times> string \<times> int)" where
  "calculate_time_to_expiry total_trading_days today expiry_str =
     (case strptime expiry_str of
        None \<Rightarrow> Inr (0, ''0/0'', 0)
      | Some expiry_date \<Rightarrow>
          if year expiry_date \<noteq> 2025 then Inr (0, ''0/0'', 0)
          else
            (case count_trading_days_between (strftime today) expiry_str of
               Inl e \<Rightarrow> Inl e
             | Inr days_left \<Rightarrow>
                 let frac_str = str_int days_left @ ''/'' @ str_int total_trading_days
                 in if total_trading_days \<le> 0 then Inr (0, frac_str, days_left)
                    else Inr (real_of_int days_left / real_of_int total_trading_days,
                              frac_str, days_left)))"

text \<open>
  The specification of the count: the dates from \<open>start_date\<close> to \<open>end_date\<close>, both
  included, that fall on Monday to Friday and are no holiday (dates as ordinals).
\<close>

definition trading_days :: "int list \<Rightarrow> int \<Rightarrow> int \<Rightarrow> int set" where
  "trading_days holidays start_date end_date =
     {x \<in> {start_date..end_date}. weekday x < 5 \<and> x \<notin> set holidays}"

section \<open>Contract records\<close>

text \<open>
  A record of the option chain is a JSON object.  The keys the program reads are
  \<open>expiryDate\<close>, \<open>strikePrice\<close> and the two sides \<open>CE\<close> and \<open>PE\<close>, each of them an object
  with \<open>underlyingValue\<close> and \<open>impliedVolatility\<close>; a key can be absent (\<open>None\<close>).  The
  value under \<open>impliedVolatility\<close> is absent, or a value that \<open>float()\<close> converts to a
  number, or a value on which \<open>float()\<close> raises ValueError or TypeError.
\<close>

datatype iv_field = IvMissing | IvNumber real | IvUnparseable

record opt_data =
  underlyingValue :: "real option"
  impliedVolatility :: iv_field

record contract =
  expiryDate :: "string option"
  strikePrice :: "real option"
  CE :: "opt_data option"
  PE :: "opt_data option"

definition side :: "string \<Rightarrow> contract \<Rightarrow> opt_data option" where
  \<comment> \<open>\<open>contract[opt_type]\<close> for the two option types the program looks up;
      \<open>None\<close> when \<open>opt_type not in contract\<close>\<close>
  "side opt_type c = (if opt_type = ''CE'' then CE c else if opt_type = ''PE'' then PE c else None)"

section \<open>Volatility resolver\<close>

definition strike_distance :: "real \<Rightarrow> contract \<Rightarrow> real" where
  \<comment> \<open>the sort key \<open>abs(x["strikePrice"] - strike_price)\<close>, for a record that has the key\<close>
  "strike_distance strike_price x = \<bar>the (strikePrice x) - strike_price\<bar>"

fun first_valid_iv :: "string \<Rightarrow> contract list \<Rightarrow> py_error + (real \<times> real) option" where
  \<comment> \<open>the \<open>for c in sorted_by_strike\<close> loop of \<open>get_nearest_iv\<close>;
      \<open>Inr None\<close> is the result \<open>(None, None)\<close>\<close>
  "first_valid_iv option_type [] = Inr None"
| "first_valid_iv option_type (c # cs) =
     (case side option_type c of
        None \<Rightarrow> first_valid_iv option_type cs
      | Some od \<Rightarrow>
          (case impliedVolatility od of
             IvMissing \<Rightarrow> first_valid_iv option_type cs
           | IvUnparseable \<Rightarrow> first_valid_iv option_type cs
           | IvNumber iv_perc \<Rightarrow>
               if iv_perc > 0 then
                 (case strikePrice c of
                    None \<Rightarrow> Inl KeyError
                  | Some k \<Rightarrow> Inr (Some (iv_perc / 100, k)))
               else first_valid_iv option_type cs))"

definition get_nearest_iv ::
  "real \<Rightarrow> contract list \<Rightarrow> string \<Rightarrow> py_error + (real \<times> real) option" where
  \<comment> \<open>\<open>sorted\<close> computes the key of every record first, and \<open>x["strikePrice"]\<close> raises
      KeyError on a record without the key; the sort is stable, as \<open>sort_key\<close> is\<close>
  "get_nearest_iv strike_price option_chain option_type =
     (if list_ex (\<lambda>x. strikePrice x = None) option_chain then Inl KeyError
      else first_valid_iv option_type
             (sort_key (strike_distance strike_price) option_chain))"

record iv_resolution =
  iv_raw :: real
  iv_decimal :: real
  used_iv_status :: string

definition float_or_zero :: "iv_field \<Rightarrow> real" where
  \<comment> \<open>lines 318 to 322: \<open>opt_data.get("impliedVolatility", 0)\<close>, then \<open>float\<close>, 0.0 when
      it raises\<close>
  "float_or_zero v = (case v of IvMissing \<Rightarrow> 0 | IvNumber x \<Rightarrow> x | IvUnparseable \<Rightarrow> 0)"

definition iv_result :: "real \<Rightarrow> string \<Rightarrow> iv_resolution" where
  \<comment> \<open>line 331: \<open>iv_decimal = iv_raw / 100.0 if iv_raw > 0 else 0.01\<close>\<close>
  "iv_result raw status =
     \<lparr>iv_raw = raw, iv_decimal = (if raw > 0 then raw / 100 else 0.01),
      used_iv_status = status\<rparr>"

definition resolve_iv ::
  "real \<Rightarrow> contract list \<Rightarrow> string \<Rightarrow> opt_data \<Rightarrow> py_error + iv_resolution" where
  \<comment> \<open>lines 317 to 331 of \<open>fetch_and_calculate\<close>\<close>
  "resolve_iv strike_price chain_data opt_type od =
     (let raw = float_or_zero (impliedVolatility od) in
      if raw \<le> 0 then
        (case get_nearest_iv strike_price chain_data opt_type of
           Inl e \<Rightarrow> Inl e
         | Inr None \<Rightarrow> Inr (iv_result raw ''REAL'')
         | Inr (Some (nearest_iv, nearest_strike)) \<Rightarrow>
             Inr (iv_result (nearest_iv * 100) ''FAKE''))
      else Inr (iv_result raw ''REAL''))"

definition valid_iv :: "string \<Rightarrow> contract \<Rightarrow> real option" where
  \<comment> \<open>the quoted implied volatility of a sibling on the given side, when it is present,
      parseable and positive\<close>
  "valid_iv option_type c =
     (case side option_type c of
        None \<Rightarrow> None
      | Some od \<Rightarrow>
          (case impliedVolatility od of
             IvNumber v \<Rightarrow> if v > 0 then Some v else None
           | _ \<Rightarrow> None))"

section \<open>Pricing orchestrator\<close>










section \<open>Properties of the lattice pricer\<close>








text \<open>
  Claim C3: whenever \<open>dt \<le> 0\<close> (no time left, or \<open>n = 0\<close>) the pricer returns, without
  raising, the degenerate record: \<open>u = d = m = 1\<close>, zero probabilities, discount factor
  1, the three prices equal to the spot, zero payoffs and zero root value.
\<close>

theorem degenerate_record:
  assumes "step_dt_of T n \<le> 0"
  shows "trinomial_single_step S K r sigma T q n ot =
     Inr \<lparr>step_n = n, step_dt = 0, step_u = 1, step_d = 1, step_m = 1,
          p_u = 0, p_m = 0, p_d = 0, discount_factor = 1,
          price_up = S, price_mid = S, price_down = S,
          payoff_up = 0, payoff_mid = 0, payoff_down = 0,
          option_value_at_root = 0\<rparr>"
  using assms by (simp add: trinomial_single_step_def)

theorem degenerate_record_witness:
  "step_dt_of 0.5 0 \<le> 0
   \<and> trinomial_single_step 120 100 0.05 0.2 0.5 0 0 ''PE'' =
     Inr \<lparr>step_n = 0, step_dt = 0, step_u = 1, step_d = 1, step_m = 1,
          p_u = 0, p_m = 0, p_d = 0, discount_factor = 1,
          price_up = 120, price_mid = 120, price_down = 120,
          payoff_up = 0, payoff_mid = 0, payoff_down = 0,
          option_value_at_root = 0\<rparr>"
proof -
  have h: "step_dt_of 0.5 0 \<le> 0" by (simp add: step_dt_of_def)
  from degenerate_record[OF h, where S = 120 and K = 100 and r = "0.05" and sigma = "0.2"
      and q = 0 and ot = "''PE''"] h
  show ?thesis by simp
qed



subsection \<open>The pricer never raises\<close>




section \<open>Properties of the step-schedule selector\<close>

text \<open>
  Claim C7: the selection is total and follows the priority order.  A volatility above
  0.4 gives \<open>[10,20,50,100,200,400]\<close> whatever the maturity (so \<open>sigma = 0.45\<close>,
  \<open>T = 0.01\<close> takes rule 1, not the short-maturity rule); otherwise above 0.2 gives
  \<open>[10,20,50,100,200]\<close>; otherwise above 0.1 gives \<open>[4,10,20,40,100]\<close>; otherwise
  \<open>T < 0.05\<close> gives \<open>[4,10,20,40,50]\<close>; otherwise an at-the-money index option gives
  \<open>[10,20,50,100,200]\<close>; and every other input gives \<open>[4,10,20,40]\<close>.
\<close>

theorem determine_n_steps_priority:
  "(0.4 < IV \<longrightarrow> determine_n_steps IV T is_index is_atm = [10, 20, 50, 100, 200, 400])
   \<and> (0.2 < IV \<and> IV \<le> 0.4 \<longrightarrow> determine_n_steps IV T is_index is_atm = [10, 20, 50, 100, 200])
   \<and> (0.1 < IV \<and> IV \<le> 0.2 \<longrightarrow> determine_n_steps IV T is_index is_atm = [4, 10, 20, 40, 100])
   \<and> (IV \<le> 0.1 \<and> T < 0.05 \<longrightarrow> determine_n_steps IV T is_index is_atm = [4, 10, 20, 40, 50])
   \<and> (IV \<le> 0.1 \<and> 0.05 \<le> T \<and> is_index \<and> is_atm \<longrightarrow>
        determine_n_steps IV T is_index is_atm = [10, 20, 50, 100, 200])
   \<and> (IV \<le> 0.1 \<and> 0.05 \<le> T \<and> \<not> (is_index \<and> is_atm) \<longrightarrow>
        determine_n_steps IV T is_index is_atm = [4, 10, 20, 40])
   \<and> determine_n_steps IV T is_index is_atm \<in>
        {[10, 20, 50, 100, 200, 400], [10, 20, 50, 100, 200], [4, 10, 20, 40, 100],
         [4, 10, 20, 40, 50], [4, 10, 20, 40]}
   \<and> determine_n_steps 0.45 0.01 is_index is_atm = [10, 20, 50, 100, 200, 400]"
  by (simp add: determine_n_steps_def)

theorem determine_n_steps_priority_witness:
  "determine_n_steps 0.45 0.01 True True = [10, 20, 50, 100, 200, 400]
   \<and> determine_n_steps 0.3 0.01 True True = [10, 20, 50, 100, 200]
   \<and> determine_n_steps 0.15 0.01 True True = [4, 10, 20, 40, 100]
   \<and> determine_n_steps 0.05 0.01 True True = [4, 10, 20, 40, 50]
   \<and> determine_n_steps 0.05 0.5 True True = [10, 20, 50, 100, 200]
   \<and> determine_n_steps 0.05 0.5 True False = [4, 10, 20, 40]"
  using determine_n_steps_priority[of "0.45" "0.01" True True]
    determine_n_steps_priority[of "0.3" "0.01" True True]
    determine_n_steps_priority[of "0.15" "0.01" True True]
    determine_n_steps_priority[of "0.05" "0.01" True True]
    determine_n_steps_priority[of "0.05" "0.5" True True]
    determine_n_steps_priority[of "0.05" "0.5" True False]
  by simp

section \<open>Properties of the calendar\<close>

subsection \<open>The loop of \<open>count_trading_days_between\<close>\<close>

lemma trading_days_step:
  assumes "c \<le> e"
  shows "trading_days hs c e =
     (if weekday c < 5 \<and> c \<notin> set hs then {c} else {}) \<union> trading_days hs (c + 1) e"
proof -
  from assms have "{c..e} = insert c {c + 1..e}" by auto
  then show ?thesis by (auto simp: trading_days_def)
qed

lemma trading_days_finite: "finite (trading_days hs c e)"
  by (rule finite_subset[of _ "{c..e}"]) (auto simp: trading_days_def)

lemma trading_days_empty: "e < c \<Longrightarrow> trading_days hs c e = {}"
  by (simp add: trading_days_def)

lemma count_loop_counts:
  assumes "end_date < MAXORDINAL" and "0 \<le> cur"
  shows "count_loop hs end_date cur k = Inr (k + int (card (trading_days hs cur end_date)))"
  using assms
proof (induction hs end_date cur k rule: count_loop.induct)
  case (1 hs e c k)
  show ?case
  proof (cases "c \<le> e")
    case False
    then show ?thesis by (subst count_loop.simps) (simp add: trading_days_empty)
  next
    case True
    let ?k = "if weekday c < 5 \<and> c \<notin> set hs then k + 1 else k"
    from True "1.prems" have ok: "0 < c + 1 \<and> c + 1 \<le> MAXORDINAL" by simp
    have ih: "count_loop hs e (c + 1) ?k = Inr (?k + int (card (trading_days hs (c + 1) e)))"
      using "1.IH"[OF True refl ok] "1.prems" by simp
    have notin: "c \<notin> trading_days hs (c + 1) e" by (simp add: trading_days_def)
    have "int (card (trading_days hs c e)) =
            (if weekday c < 5 \<and> c \<notin> set hs then 1 else 0)
            + int (card (trading_days hs (c + 1) e))"
      using notin by (simp add: trading_days_step[OF True] trading_days_finite)
    then show ?thesis
      using True ok ih by (subst count_loop.simps) (simp add: Let_def)
  qed
qed

lemma count_loop_overflow:
  assumes "cur \<le> end_date" and "MAXORDINAL \<le> end_date" and "cur \<le> MAXORDINAL"
  shows "count_loop hs end_date cur k = Inl OverflowError"
  using assms
proof (induction hs end_date cur k rule: count_loop.induct)
  case (1 hs e c k)
  show ?case
  proof (cases "0 < c + 1 \<and> c + 1 \<le> MAXORDINAL")
    case False
    with "1.prems" show ?thesis by (subst count_loop.simps) (auto simp: Let_def)
  next
    case True
    let ?k = "if weekday c < 5 \<and> c \<notin> set hs then k + 1 else k"
    have "count_loop hs e (c + 1) ?k = Inl OverflowError"
      using "1.IH"[OF "1.prems"(1) refl True] "1.prems" True by simp
    with True "1.prems" show ?thesis by (subst count_loop.simps) (simp add: Let_def)
  qed
qed

lemma days_before_month_bounds:
  assumes "1 \<le> mo" and "mo \<le> 12"
  shows "0 \<le> days_before_month y mo \<and> days_before_month y mo \<le> 335"
proof -
  from assms have "mo \<in> {1, 2, 3, 4, 5, 6, 7, 8, 9, 10, 11, 12}" by simp presburger
  then show ?thesis
    by (auto simp: days_before_month_def DAYS_IN_MONTH_def)
qed

lemma days_in_month_le: "1 \<le> mo \<Longrightarrow> mo \<le> 12 \<Longrightarrow> days_in_month y mo \<le> 31"
proof -
  assume "1 \<le> mo" "mo \<le> 12"
  then have "mo \<in> {1, 2, 3, 4, 5, 6, 7, 8, 9, 10, 11, 12}" by simp presburger
  then show ?thesis
    by (auto simp: days_in_month_def DAYS_IN_MONTH_def)
qed


lemma strptime_valid: "strptime s = Some dt \<Longrightarrow> valid_date dt"
  unfolding strptime_def Let_def
  by (simp split: list.splits option.splits if_splits)

lemma days_before_year_nonneg: "1 \<le> y \<Longrightarrow> 0 \<le> days_before_year y"
  unfolding days_before_year_def Let_def by simp

lemma toordinal_pos: "valid_date dt \<Longrightarrow> 1 \<le> toordinal dt"
  using days_before_month_bounds[of "month dt" "year dt"] days_before_year_nonneg[of "year dt"]
  by (simp add: valid_date_def toordinal_def)

subsection \<open>Ordinals and the order of dates\<close>

text \<open>
  The ordinal is strictly monotone on valid dates, so comparing two dates, or looking a date
  up in a set, is comparing or looking up their ordinals.
\<close>

lemma div_pred:
  fixes y k :: int
  assumes "0 < k"
  shows "y div k = (y - 1) div k + (if y mod k = 0 then 1 else 0)"
proof (cases "y mod k = 0")
  case True
  have "y - 1 = k * (y div k - 1) + (k - 1)"
    using True mult_div_mod_eq[of k y] by (simp add: algebra_simps)
  from int_div_pos_eq[OF this] assms have "(y - 1) div k = y div k - 1" by simp
  with True show ?thesis by simp
next
  case False
  with pos_mod_sign[OF assms, of y] have nonneg: "0 \<le> y mod k - 1" by linarith
  have eq: "y - 1 = k * (y div k) + (y mod k - 1)"
    using mult_div_mod_eq[of k y] by simp
  have lt: "y mod k - 1 < k" using pos_mod_bound[OF assms, of y] by linarith
  have "(y - 1) div k = y div k"
    by (rule int_div_pos_eq[OF eq nonneg lt])
  with False show ?thesis by simp
qed

lemma leap_arith:
  fixes base a b c a' b' c' :: int
  assumes "a = a' + (if P4 then 1 else 0)" and "b = b' + (if P100 then 1 else 0)"
    and "c = c' + (if P400 then 1 else 0)" and "P100 \<longrightarrow> P4" and "P400 \<longrightarrow> P100"
  shows "(y1 + 1) * 365 + a - b + c =
         (y1 * 365 + a' - b' + c') + (if P4 \<and> (\<not> P100 \<or> P400) then 366 else 365)"
  using assms by (cases P4; cases P100; cases P400; simp add: algebra_simps)

lemma days_before_year_step:
  "days_before_year (y + 1) = days_before_year y + (if is_leap y then 366 else 365)"
proof -
  have a: "y mod 100 = 0 \<longrightarrow> y mod 4 = 0"
    using mod_mod_cancel[of 4 100 y] by auto
  have b: "y mod 400 = 0 \<longrightarrow> y mod 100 = 0"
    using mod_mod_cancel[of 100 400 y] by auto
  have "(y - 1 + 1) * 365 + y div 4 - y div 100 + y div 400 =
        ((y - 1) * 365 + (y - 1) div 4 - (y - 1) div 100 + (y - 1) div 400)
        + (if y mod 4 = 0 \<and> (\<not> y mod 100 = 0 \<or> y mod 400 = 0) then 366 else 365)"
    by (rule leap_arith[OF div_pred div_pred div_pred a b]) simp_all
  then show ?thesis
    by (simp only: days_before_year_def is_leap_def Let_def add_diff_cancel_right' diff_add_cancel)
qed

lemma days_before_year_mono:
  assumes "y1 < y2"
  shows "days_before_year y1 + (if is_leap y1 then 366 else 365) \<le> days_before_year y2"
proof -
  have mono: "days_before_year a \<le> days_before_year b" if "a \<le> b" for a b
    using that
  proof (induction b rule: int_ge_induct)
    case base
    show ?case by simp
  next
    case (step i)
    then show ?case by (simp add: days_before_year_step)
  qed
  from assms have "days_before_year (y1 + 1) \<le> days_before_year y2" by (intro mono) simp
  then show ?thesis by (simp add: days_before_year_step)
qed

lemma month_set: "1 \<le> mo \<Longrightarrow> mo \<le> 12 \<Longrightarrow> mo \<in> {1, 2, 3, 4, 5, 6, 7, 8, 9, 10, 11, 12::int}"
  by simp presburger

lemma days_before_month_step:
  assumes "1 \<le> mo" and "mo \<le> 11"
  shows "days_before_month y (mo + 1) = days_before_month y mo + days_in_month y mo"
proof -
  from assms have "mo \<in> {1, 2, 3, 4, 5, 6, 7, 8, 9, 10, 11, 12}" by (intro month_set) simp_all
  with assms show ?thesis
    by (auto simp: days_before_month_def days_in_month_def DAYS_IN_MONTH_def)
qed

lemma days_in_month_pos: "1 \<le> mo \<Longrightarrow> mo \<le> 12 \<Longrightarrow> 28 \<le> days_in_month y mo"
  using month_set[of mo] by (auto simp: days_in_month_def DAYS_IN_MONTH_def)

lemma days_before_month_mono:
  assumes "1 \<le> m1" and "m1 < m2" and "m2 \<le> 12"
  shows "days_before_month y m1 + days_in_month y m1 \<le> days_before_month y m2"
proof -
  have mono: "days_before_month y a \<le> days_before_month y b" if "a \<le> b" "1 \<le> a" "b \<le> 12" for a b
    using that
  proof (induction b rule: int_ge_induct)
    case base
    show ?case by simp
  next
    case (step i)
    then show ?case
      using days_before_month_step[of i y] days_in_month_pos[of i y] by simp
  qed
  from assms have "days_before_month y (m1 + 1) \<le> days_before_month y m2" by (intro mono) simp_all
  with assms show ?thesis by (simp add: days_before_month_step)
qed

lemma year_length:
  assumes "valid_date dt"
  shows "days_before_month (year dt) (month dt) + day dt \<le> (if is_leap (year dt) then 366 else 365)"
proof -
  from assms have "month dt \<in> {1, 2, 3, 4, 5, 6, 7, 8, 9, 10, 11, 12}"
    by (intro month_set) (simp_all add: valid_date_def)
  with assms show ?thesis
    by (auto simp: valid_date_def days_before_month_def days_in_month_def DAYS_IN_MONTH_def
        split: if_splits)
qed

lemma toordinal_strict:
  assumes "valid_date d1" and "valid_date d2"
    and "year d1 < year d2 \<or> (year d1 = year d2 \<and> (month d1 < month d2
              \<or> (month d1 = month d2 \<and> day d1 < day d2)))"
  shows "toordinal d1 < toordinal d2"
proof -
  consider (y) "year d1 < year d2" | (m) "year d1 = year d2" "month d1 < month d2"
    | (d) "year d1 = year d2" "month d1 = month d2" "day d1 < day d2"
    using assms(3) by blast
  then show ?thesis
  proof cases
    case y
    from days_before_year_mono[OF y] year_length[OF assms(1)]
      days_before_month_bounds[of "month d2" "year d2"] assms(2)
    show ?thesis by (simp add: toordinal_def valid_date_def split: if_splits)
  next
    case m
    from assms have "1 \<le> month d1" "month d2 \<le> 12" by (simp_all add: valid_date_def)
    from days_before_month_mono[OF this(1) m(2) this(2), of "year d1"] assms m(1)
    show ?thesis by (simp add: toordinal_def valid_date_def)
  next
    case d
    then show ?thesis by (simp add: toordinal_def)
  qed
qed

lemma date_le_iff_toordinal:
  assumes "valid_date d1" and "valid_date d2"
  shows "date_le d1 d2 \<longleftrightarrow> toordinal d1 \<le> toordinal d2"
proof
  assume "date_le d1 d2"
  then consider "d1 = d2"
    | "year d1 < year d2 \<or> (year d1 = year d2 \<and> (month d1 < month d2
              \<or> (month d1 = month d2 \<and> day d1 < day d2)))"
    by (cases d1; cases d2) (auto simp: date_le_def order_le_less)
  then show "toordinal d1 \<le> toordinal d2"
    using toordinal_strict[OF assms] by cases auto
next
  assume le: "toordinal d1 \<le> toordinal d2"
  show "date_le d1 d2"
  proof (rule ccontr)
    assume "\<not> date_le d1 d2"
    then have "year d2 < year d1 \<or> (year d2 = year d1 \<and> (month d2 < month d1
              \<or> (month d2 = month d1 \<and> day d2 < day d1)))"
      by (auto simp: date_le_def)
    from toordinal_strict[OF assms(2,1) this] le show False by simp
  qed
qed

subsection \<open>\<open>count_trading_days_between\<close>\<close>

lemma toordinal_max: "toordinal (Date 9999 12 31) = MAXORDINAL"
  by (simp add: toordinal_def days_before_year_def days_before_month_def DAYS_IN_MONTH_def
      is_leap_def MAXORDINAL_def)

lemma valid_date_max: "valid_date (Date 9999 12 31)"
  by (simp add: valid_date_def days_in_month_def DAYS_IN_MONTH_def)

lemma toordinal_below_max:
  assumes "valid_date dt" and "dt \<noteq> Date 9999 12 31"
  shows "toordinal dt < MAXORDINAL"
proof -
  from assms(1) have "month dt \<in> {1, 2, 3, 4, 5, 6, 7, 8, 9, 10, 11, 12}"
    by (intro month_set) (simp_all add: valid_date_def)
  with assms have "year dt < 9999 \<or> (year dt = 9999 \<and> (month dt < 12
              \<or> (month dt = 12 \<and> day dt < 31)))"
    by (cases dt) (auto simp: valid_date_def days_in_month_def DAYS_IN_MONTH_def)
  from toordinal_strict[OF assms(1) valid_date_max] this show ?thesis
    by (simp add: toordinal_max)
qed

text \<open>
  Unless the end date is 31 December 9999, the function returns the number of trading
  days from the start date to the end date, which is 0 when the start is after the end.
\<close>

lemma count_trading_days_between_counts:
  assumes "strptime start_str = Some start_date" and "strptime end_str = Some end_date"
    and "end_date \<noteq> Date 9999 12 31"
  shows "count_trading_days_between start_str end_str =
     Inr (int (card (trading_days holiday_dates (toordinal start_date) (toordinal end_date))))"
proof -
  have v: "valid_date start_date" "valid_date end_date"
    using assms strptime_valid by blast+
  show ?thesis
  proof (cases "date_le start_date end_date")
    case True
    from toordinal_below_max[OF v(2) assms(3)] toordinal_pos[OF v(1)]
    have "count_loop holiday_dates (toordinal end_date) (toordinal start_date) 0 =
      Inr (0 + int (card (trading_days holiday_dates (toordinal start_date) (toordinal end_date))))"
      by (intro count_loop_counts) simp_all
    with True assms show ?thesis by (simp add: count_trading_days_between_def)
  next
    case False
    with date_le_iff_toordinal[OF v] have "toordinal end_date < toordinal start_date" by simp
    then have "trading_days holiday_dates (toordinal start_date) (toordinal end_date) = {}"
      by (rule trading_days_empty)
    with False assms show ?thesis by (simp add: count_trading_days_between_def)
  qed
qed

lemma count_trading_days_between_unparsable:
  assumes "strptime start_str = None \<or> strptime end_str = None"
  shows "count_trading_days_between start_str end_str = Inr 0"
  using assms by (auto simp: count_trading_days_between_def split: option.splits)

text \<open>With the end date 31 December 9999 and a start date not after it, the loop runs
  until \<open>curr_date += timedelta(days=1)\<close> leaves the range of dates.\<close>

lemma count_trading_days_between_overflow:
  assumes "strptime start_str = Some start_date" and "strptime end_str = Some (Date 9999 12 31)"
  shows "count_trading_days_between start_str end_str = Inl OverflowError"
proof -
  have v: "valid_date start_date" using assms strptime_valid by blast
  have le: "toordinal start_date \<le> MAXORDINAL"
  proof (cases "start_date = Date 9999 12 31")
    case True
    then show ?thesis by (simp add: toordinal_max)
  next
    case False
    from toordinal_below_max[OF v False] show ?thesis by simp
  qed
  then have "date_le start_date (Date 9999 12 31)"
    using date_le_iff_toordinal[OF v valid_date_max] by (simp add: toordinal_max)
  moreover have "count_loop holiday_dates MAXORDINAL (toordinal start_date) 0 = Inl OverflowError"
    using le by (intro count_loop_overflow) simp_all
  ultimately show ?thesis
    using assms by (simp add: count_trading_days_between_def toordinal_max)
qed

text \<open>
  Claim C6 as stated, for every pair of date strings, fails at the last date of the
  calendar: with the end date 31 December 9999, a string that parses, the function raises
  OverflowError instead of returning the count.  The program never passes that date: the
  one call of the function comes after the guard on the expiry's year.
\<close>

theorem count_trading_days_between_last_day_counterexample:
  "count_trading_days_between ''31-Dec-9999'' ''31-Dec-9999'' = Inl OverflowError"
  by code_simp

text \<open>
  Claim C6, amended: for every pair of strings whose end date is not 31 December 9999 the
  function returns without raising.  It returns 0 when either string does not parse in
  the form day, abbreviated month, year, and 0 when the start date is after the end date;
  otherwise it returns the number of days from the start date to the end date, both
  included, that fall on Monday to Friday and are not in the holiday set.
\<close>

theorem count_trading_days_between_counts_range:
  assumes "strptime end_str \<noteq> Some (Date 9999 12 31)"
  shows "count_trading_days_between start_str end_str =
     Inr (case (strptime start_str, strptime end_str) of
            (Some start_date, Some end_date) \<Rightarrow>
              if date_le start_date end_date
              then int (card (trading_days holiday_dates
                                (toordinal start_date) (toordinal end_date)))
              else 0
          | _ \<Rightarrow> 0)"
proof (cases "strptime start_str")
  case None
  then show ?thesis
    using count_trading_days_between_unparsable[of start_str end_str] by simp
next
  case s: (Some start_date)
  show ?thesis
  proof (cases "strptime end_str")
    case None
    then show ?thesis
      using count_trading_days_between_unparsable[of start_str end_str]
      by (simp split: option.splits)
  next
    case e: (Some end_date)
    with assms have ne: "end_date \<noteq> Date 9999 12 31" by simp
    have v: "valid_date start_date" "valid_date end_date"
      using s e strptime_valid by blast+
    show ?thesis
    proof (cases "date_le start_date end_date")
      case True
      with count_trading_days_between_counts[OF s e ne] s e show ?thesis by simp
    next
      case False
      with s e show ?thesis by (simp add: count_trading_days_between_def)
    qed
  qed
qed

text \<open>
  The week from Monday 11 August 2025 to Sunday 17 August 2025 holds four trading days:
  Friday 15 August is a holiday.
\<close>

theorem count_trading_days_between_counts_range_witness:
  "count_trading_days_between ''11-Aug-2025'' ''17-Aug-2025'' = Inr 4
   \<and> card (trading_days holiday_dates 739474 739480) = 4
   \<and> count_trading_days_between ''17-Aug-2025'' ''11-Aug-2025'' = Inr 0
   \<and> count_trading_days_between ''11/08/2025'' ''17-Aug-2025'' = Inr 0
   \<and> count_trading_days_between ''11-Aug-2025'' ''31-Aug-25'' = Inr 0"
proof -
  have p1: "strptime ''11-Aug-2025'' = Some (Date 2025 8 11)" by code_simp
  have p2: "strptime ''17-Aug-2025'' = Some (Date 2025 8 17)" by code_simp
  have p3: "strptime ''11/08/2025'' = None" by code_simp
  have p4: "strptime ''31-Aug-25'' = None" by code_simp
  have o1: "toordinal (Date 2025 8 11) = 739474" by code_simp
  have o2: "toordinal (Date 2025 8 17) = 739480" by code_simp
  have le: "date_le (Date 2025 8 11) (Date 2025 8 17)" by (simp add: date_le_def)
  have nle: "\<not> date_le (Date 2025 8 17) (Date 2025 8 11)" by (simp add: date_le_def)
  have e: "count_trading_days_between ''11-Aug-2025'' ''17-Aug-2025'' = Inr 4" by code_simp
  from count_trading_days_between_counts_range[of "''17-Aug-2025''" "''11-Aug-2025''"] e
  have "card (trading_days holiday_dates 739474 739480) = 4"
    by (simp add: p1 p2 o1 o2 le)
  moreover from count_trading_days_between_counts_range[of "''11-Aug-2025''" "''17-Aug-2025''"]
  have "count_trading_days_between ''17-Aug-2025'' ''11-Aug-2025'' = Inr 0"
    by (simp add: p1 p2 nle)
  moreover from count_trading_days_between_counts_range[of "''17-Aug-2025''" "''11/08/2025''"]
  have "count_trading_days_between ''11/08/2025'' ''17-Aug-2025'' = Inr 0"
    by (simp add: p2 p3)
  moreover from count_trading_days_between_counts_range[of "''31-Aug-25''" "''11-Aug-2025''"]
  have "count_trading_days_between ''11-Aug-2025'' ''31-Aug-25'' = Inr 0"
    by (simp add: p1 p4)
  ultimately show ?thesis using e by simp
qed

subsection \<open>\<open>calculate_time_to_expiry\<close>\<close>

text \<open>The value of \<open>calculate_time_to_expiry\<close>, case by case; it is never an exception.\<close>

lemma calculate_time_to_expiry_eq:
  "calculate_time_to_expiry total_days today expiry_str =
     (case strptime expiry_str of
        None \<Rightarrow> Inr (0, ''0/0'', 0)
      | Some expiry_date \<Rightarrow>
          if year expiry_date \<noteq> 2025 then Inr (0, ''0/0'', 0)
          else
            let days_left =
              (case strptime (strftime today) of
                 None \<Rightarrow> 0
               | Some today_date \<Rightarrow>
                   int (card (trading_days holiday_dates
                                (toordinal today_date) (toordinal expiry_date))))
            in Inr (if total_days \<le> 0 then 0 else real_of_int days_left / real_of_int total_days,
                    str_int days_left @ ''/'' @ str_int total_days, days_left))"
proof (cases "strptime expiry_str")
  case None
  then show ?thesis by (simp add: calculate_time_to_expiry_def)
next
  case (Some expiry_date)
  show ?thesis
  proof (cases "year expiry_date = 2025")
    case False
    with Some show ?thesis by (simp add: calculate_time_to_expiry_def)
  next
    case True
    then have ne: "expiry_date \<noteq> Date 9999 12 31" by auto
    show ?thesis
    proof (cases "strptime (strftime today)")
      case None
      with count_trading_days_between_unparsable[of "strftime today" expiry_str] Some True
      show ?thesis by (simp add: calculate_time_to_expiry_def Let_def)
    next
      case (Some today_date)
      from count_trading_days_between_counts[OF Some \<open>strptime expiry_str = Some expiry_date\<close> ne]
        Some \<open>strptime expiry_str = Some expiry_date\<close> True
      show ?thesis by (simp add: calculate_time_to_expiry_def Let_def)
    qed
  qed
qed

text \<open>
  Claim C5 as stated fails in its third case: with a total of trading days that is not
  positive the function still returns the days left and the string built from them, not
  \<open>(0.0, "0/0", 0)\<close>.  Here the total is 0, the clock reads 4 November 2025 and 17 trading
  days are left to 27 November 2025.
\<close>

theorem calculate_time_to_expiry_zero_total_counterexample:
  "calculate_time_to_expiry 0 (Date 2025 11 4) ''27-Nov-2025'' = Inr (0, ''17/0'', 17)
   \<and> calculate_time_to_expiry 0 (Date 2025 11 4) ''27-Nov-2025'' \<noteq> Inr (0, ''0/0'', 0)"
  by code_simp

text \<open>
  Claim C5, amended: the function never raises.  It returns \<open>(0.0, "0/0", 0)\<close> when the
  expiry string does not parse and when the expiry's year is not 2025.  Otherwise, with
  \<open>days_left\<close> the trading days from today to the expiry (0 when today's string does not
  parse), it returns \<open>(0.0, "days_left/total", days_left)\<close> when the total is not
  positive and \<open>(days_left / total, "days_left/total", days_left)\<close> when it is.
\<close>

theorem calculate_time_to_expiry_cases:
  "calculate_time_to_expiry total_days today expiry_str =
     (case strptime expiry_str of
        None \<Rightarrow> Inr (0, ''0/0'', 0)
      | Some expiry_date \<Rightarrow>
          if year expiry_date \<noteq> 2025 then Inr (0, ''0/0'', 0)
          else
            let days_left =
              (case strptime (strftime today) of
                 None \<Rightarrow> 0
               | Some today_date \<Rightarrow>
                   int (card (trading_days holiday_dates
                                (toordinal today_date) (toordinal expiry_date))))
            in Inr (if total_days \<le> 0 then 0 else real_of_int days_left / real_of_int total_days,
                    str_int days_left @ ''/'' @ str_int total_days, days_left))"
  by (rule calculate_time_to_expiry_eq)

theorem calculate_time_to_expiry_cases_witness:
  "calculate_time_to_expiry 247 (Date 2025 11 4) ''27-Nov-2025'' = Inr (17 / 247, ''17/247'', 17)
   \<and> calculate_time_to_expiry 247 (Date 2025 11 4) ''27-Nov-2026'' = Inr (0, ''0/0'', 0)
   \<and> calculate_time_to_expiry 247 (Date 2025 11 4) ''27/11/2025'' = Inr (0, ''0/0'', 0)
   \<and> card (trading_days holiday_dates 739559 739582) = 17"
proof -
  have e: "calculate_time_to_expiry 247 (Date 2025 11 4) ''27-Nov-2025''
           = Inr (17 / 247, ''17/247'', 17)"
    by code_simp
  have p1: "strptime ''27-Nov-2025'' = Some (Date 2025 11 27)" by code_simp
  have p2: "strptime (strftime (Date 2025 11 4)) = Some (Date 2025 11 4)" by code_simp
  have o1: "toordinal (Date 2025 11 27) = 739582" by code_simp
  have o2: "toordinal (Date 2025 11 4) = 739559" by code_simp
  have p3: "strptime ''27-Nov-2026'' = Some (Date 2026 11 27)" by code_simp
  have p4: "strptime ''27/11/2025'' = None" by code_simp
  from calculate_time_to_expiry_cases[of 247 "Date 2025 11 4" "''27-Nov-2025''"] e
  have "card (trading_days holiday_dates 739559 739582) = 17"
    by (simp add: p1 p2 o1 o2 Let_def)
  moreover from calculate_time_to_expiry_cases[of 247 "Date 2025 11 4" "''27-Nov-2026''"]
  have "calculate_time_to_expiry 247 (Date 2025 11 4) ''27-Nov-2026'' = Inr (0, ''0/0'', 0)"
    by (simp add: p3)
  moreover from calculate_time_to_expiry_cases[of 247 "Date 2025 11 4" "''27/11/2025''"]
  have "calculate_time_to_expiry 247 (Date 2025 11 4) ''27/11/2025'' = Inr (0, ''0/0'', 0)"
    by (simp add: p4)
  ultimately show ?thesis using e by simp
qed

section \<open>Properties of the volatility resolver\<close>

subsection \<open>The first element of a stable sort\<close>





subsection \<open>\<open>get_nearest_iv\<close> and \<open>resolve_iv\<close>\<close>

lemma first_valid_iv_find:
  assumes "\<forall>x\<in>set xs. strikePrice x \<noteq> None"
  shows "first_valid_iv ot xs =
     Inr (map_option (\<lambda>c. (the (valid_iv ot c) / 100, the (strikePrice c)))
            (List.find (\<lambda>c. valid_iv ot c \<noteq> None) xs))"
  using assms
proof (induction xs)
  case Nil
  show ?case by simp
next
  case (Cons c cs)
  then have ih: "first_valid_iv ot cs =
     Inr (map_option (\<lambda>c. (the (valid_iv ot c) / 100, the (strikePrice c)))
            (List.find (\<lambda>c. valid_iv ot c \<noteq> None) cs))"
    and k: "strikePrice c \<noteq> None" by simp_all
  from k obtain s where s: "strikePrice c = Some s" by auto
  show ?case
    by (simp add: ih s valid_iv_def split: option.splits iv_field.splits)
qed

lemma list_ex_strike: "list_ex (\<lambda>x. strikePrice x = None) xs \<longleftrightarrow> \<not> (\<forall>x\<in>set xs. strikePrice x \<noteq> None)"
  by (auto simp: list_ex_iff)

lemma get_nearest_iv_find:
  assumes "\<forall>x\<in>set chain. strikePrice x \<noteq> None"
  shows "get_nearest_iv k chain ot =
     Inr (map_option (\<lambda>c. (the (valid_iv ot c) / 100, the (strikePrice c)))
            (List.find (\<lambda>c. valid_iv ot c \<noteq> None) (sort_key (strike_distance k) chain)))"
proof -
  from assms have "\<forall>x\<in>set (sort_key (strike_distance k) chain). strikePrice x \<noteq> None"
    by simp
  from first_valid_iv_find[OF this] assms show ?thesis
    by (simp add: get_nearest_iv_def list_ex_strike)
qed




text \<open>
  When the quoted volatility is unusable and no sibling has a usable one, the resolution
  is the floor 0.01, and the label stays at its initial value REAL.
\<close>

lemma resolve_iv_floor:
  assumes "\<forall>x\<in>set chain. strikePrice x \<noteq> None"
    and "float_or_zero (impliedVolatility od) \<le> 0"
    and "\<forall>x\<in>set chain. valid_iv ot x = None"
  shows "resolve_iv k chain ot od =
     Inr \<lparr>iv_raw = float_or_zero (impliedVolatility od), iv_decimal = 0.01,
          used_iv_status = ''REAL''\<rparr>"
proof -
  from assms(3) have "List.find (\<lambda>c. valid_iv ot c \<noteq> None) (sort_key (strike_distance k) chain)
      = None"
    by (simp add: find_None_iff)
  then have "get_nearest_iv k chain ot = Inr None"
    unfolding get_nearest_iv_find[OF assms(1)] by simp
  with assms(2) show ?thesis by (simp add: resolve_iv_def iv_result_def)
qed

text \<open>
  Claim C4 says that the floor of 1 percent, taken when neither the quoted volatility nor
  a nearest substitute is found, is labelled FAKE.  For a chain of one contract whose
  call quotes the volatility 0, the program labels the floor REAL.
\<close>

theorem resolve_iv_floor_labelled_REAL:
  "resolve_iv 100
     [\<lparr>expiryDate = Some ''27-Nov-2025'', strikePrice = Some 100,
        CE = Some \<lparr>underlyingValue = Some 101, impliedVolatility = IvNumber 0\<rparr>, PE = None\<rparr>]
     ''CE'' \<lparr>underlyingValue = Some 101, impliedVolatility = IvNumber 0\<rparr>
   = Inr \<lparr>iv_raw = 0, iv_decimal = 1 / 100, used_iv_status = ''REAL''\<rparr>"
  by code_simp

section \<open>Properties of the orchestrator\<close>










end
